theory Spec2Isabelle
  imports Complex_Main "HOL-Library.Log_Nat"
begin

section \<open>Revolving-credit simulator: the model of \<open>src/App.tsx\<close>\<close>

text \<open>
  The two functions of \<open>src/App.tsx\<close> that hold the logic of the application are
  \<open>calculateProjectedInterest\<close> (lines 36-68) and \<open>calculateSimulation\<close> (lines 70-191).
  Both work on TypeScript values of type \<open>number\<close>, which are IEEE double-precision
  numbers. Two models of the same code are given.

  The exact model (\<open>calculateProjectedInterest\<close>, \<open>calculateSimulation\<close>) evaluates
  \<open>+\<close>, \<open>-\<close>, \<open>*\<close> and \<open>/\<close> exactly over the rationals. It carries the control structure
  of the code and is used for the properties that depend on that structure only.

  The double-precision model (\<open>calculateProjectedInterestD\<close>, \<open>calculateSimulationD\<close>) is
  the same code with the result of every \<open>+\<close>, \<open>-\<close>, \<open>*\<close> and \<open>/\<close> rounded to the nearest
  double. It is used for the properties that depend on how the operations round.

  In both models \<open>Math.floor\<close> is \<open>\<lfloor>_\<rfloor>\<close>, \<open>Math.abs\<close> is \<open>\<bar>_\<bar>\<close> and the comparisons are
  the exact ones. The values \<open>NaN\<close> and \<open>\<plusminus>Infinity\<close> are outside both models, \<open>-0\<close> is
  not told apart from \<open>0\<close> (the comparisons of the code do not tell them apart either), and
  a result beyond the largest double is not turned into an infinity. The month counter only
  takes the values \<open>0, 1, 2, \<dots>\<close> and is a natural number.
\<close>

subsection \<open>Data model (\<open>types.ts\<close>)\<close>

record SimulationParams =
  initialBalance :: rat
  monthlyNewCharge :: rat
  monthlyRepayment :: rat
  annualInterestRate :: rat

text \<open>
  \<open>MonthData\<close> and \<open>SimulationResult\<close> both have a field \<open>totalPaid\<close> in the source.
  The field of \<open>SimulationResult\<close> is declared last and is the one the short name
  \<open>totalPaid\<close> denotes; the per-month field is written \<open>MonthData.totalPaid\<close>.
\<close>

record MonthData =
  month :: nat
  balance :: rat
  principalPaid :: rat
  interestPaid :: rat
  totalPaid :: rat
  cumulativeInterest :: rat
  cumulativePrincipal :: rat
  remainingInterest :: rat

record SimulationResult =
  data :: "MonthData list"
  totalInterest :: rat
  totalPaid :: rat
  months :: nat
  isInfinite :: bool

subsection \<open>\<open>calculateProjectedInterest\<close>\<close>

definition MAX_PROJ_MONTHS :: nat where
  "MAX_PROJ_MONTHS = 600"

text \<open>
  The \<open>for\<close> loop of lines 48-65, started at \<open>i = 0\<close>. The arguments are the loop
  invariants \<open>monthlyRepayment\<close> and \<open>monthlyRate\<close>, the counter \<open>i\<close> and the two
  variables the loop updates, \<open>currentBal\<close> and \<open>totalInt\<close>. The result is the value of
  \<open>totalInt\<close> when the loop is left, by \<open>break\<close> or because \<open>i\<close> reached the cap.
\<close>

function projLoop :: "rat \<Rightarrow> rat \<Rightarrow> nat \<Rightarrow> rat \<Rightarrow> rat \<Rightarrow> rat" where
  "projLoop repayment monthlyRate i currentBal totalInt =
     (if i < MAX_PROJ_MONTHS then
        let interest = of_int \<lfloor>currentBal * monthlyRate\<rfloor>;
            payment = (if currentBal + interest \<le> repayment
                       then currentBal + interest else repayment);
            principal = payment - interest;
            currentBal' = currentBal - principal;
            totalInt' = totalInt + interest
        in if currentBal' \<le> 0 then totalInt'
           else projLoop repayment monthlyRate (i + 1) currentBal' totalInt'
      else totalInt)"
  by pat_completeness auto
termination
  by (relation "measure (\<lambda>(r, q, i, b, t). MAX_PROJ_MONTHS - i)") auto

definition calculateProjectedInterest :: "rat \<Rightarrow> rat \<Rightarrow> rat \<Rightarrow> rat" where
  "calculateProjectedInterest bal repayment rate =
     (if bal \<le> 0 then 0
      else projLoop repayment (rate / 100 / 12) 0 bal 0)"

subsection \<open>\<open>calculateSimulation\<close>\<close>

definition MAX_MONTHS :: nat where
  "MAX_MONTHS = 600"

text \<open>The local variables of \<open>calculateSimulation\<close> that the \<open>while\<close> loop updates.\<close>

record SimState =
  st_balance :: rat
  st_totalInterest :: rat
  st_totalPaid :: rat
  st_cumulativePrincipal :: rat
  st_data :: "MonthData list"
  st_month :: nat
  st_isInfinite :: bool

text \<open>Lines 73-96: the variables before the loop, with the month-0 record pushed.\<close>

definition initState :: "SimulationParams \<Rightarrow> SimState" where
  "initState p =
     \<lparr> st_balance = initialBalance p,
       st_totalInterest = 0,
       st_totalPaid = 0,
       st_cumulativePrincipal = 0,
       st_data = [\<lparr> month = 0,
                    balance = initialBalance p,
                    principalPaid = 0,
                    interestPaid = 0,
                    MonthData.totalPaid = 0,
                    cumulativeInterest = 0,
                    cumulativePrincipal = 0,
                    remainingInterest =
                      calculateProjectedInterest (initialBalance p) (monthlyRepayment p)
                        (annualInterestRate p) \<rparr>],
       st_month = 0,
       st_isInfinite = False \<rparr>"

text \<open>
  One pass through the body of the \<open>while\<close> loop, lines 99-176. The result is the state
  after the pass and a flag that is \<open>True\<close> when the pass left the loop by \<open>break\<close>.
\<close>

definition simStep :: "SimulationParams \<Rightarrow> SimState \<Rightarrow> SimState \<times> bool" where
  "simStep p s =
     (let month' = st_month s + 1;
          bal = st_balance s;
          monthlyRate = annualInterestRate p / 100 / 12;
          interest = of_int \<lfloor>bal * monthlyRate\<rfloor>;
          payment = (if bal + interest \<le> monthlyRepayment p
                     then bal + interest else monthlyRepayment p);
          principal = payment - interest
      in if bal > initialBalance p * 5 \<and> bal > 1000000 then
           (s\<lparr> st_month := month', st_isInfinite := True \<rparr>, True)
         else
           let prevBalance = bal;
               bal1 = bal - principal + monthlyNewCharge p;
               bal' = (if bal1 < 0 then 0 else bal1);
               totalInterest' = st_totalInterest s + interest;
               totalPaid' = st_totalPaid s + payment;
               cumulativePrincipal' = st_cumulativePrincipal s + principal;
               projectedInterest =
                 calculateProjectedInterest bal' (monthlyRepayment p) (annualInterestRate p);
               s' = \<lparr> st_balance = bal',
                      st_totalInterest = totalInterest',
                      st_totalPaid = totalPaid',
                      st_cumulativePrincipal = cumulativePrincipal',
                      st_data = st_data s @
                        [\<lparr> month = month',
                           balance = bal',
                           principalPaid = principal,
                           interestPaid = interest,
                           MonthData.totalPaid = payment,
                           cumulativeInterest = totalInterest',
                           cumulativePrincipal = cumulativePrincipal',
                           remainingInterest = projectedInterest \<rparr>],
                      st_month = month',
                      st_isInfinite = st_isInfinite s \<rparr>
           in if bal' \<le> 0 then (s', True)
              else if bal' < monthlyRepayment p then (s', True)
              else if monthlyNewCharge p > 0 \<and> \<bar>bal' - prevBalance\<bar> \<le> 10 then
                (if bal' \<le> monthlyNewCharge p * 1.5 then (s', True)
                 else if bal' > monthlyRepayment p then (s'\<lparr> st_isInfinite := True \<rparr>, True)
                 else (s', False))
              else (s', False))"

text \<open>The \<open>while\<close> loop of line 98, with the state the loop is left in as result.\<close>

function simLoop :: "SimulationParams \<Rightarrow> SimState \<Rightarrow> SimState" where
  "simLoop p s =
     (if st_balance s > 0 \<and> st_month s < MAX_MONTHS then
        (case simStep p s of
           (s', stop) \<Rightarrow> if stop then s' else simLoop p s')
      else s)"
  by pat_completeness auto
termination
proof (relation "measure (\<lambda>(p, s). MAX_MONTHS - st_month s)")
  show "wf (measure (\<lambda>(p, s). MAX_MONTHS - st_month s))"
    by simp
next
  fix p :: SimulationParams and s s' :: SimState and stop :: bool
  assume c: "0 < st_balance s \<and> st_month s < MAX_MONTHS"
    and x: "(s', stop) = simStep p s"
  have "st_month (fst (simStep p s)) = st_month s + 1"
    by (simp add: simStep_def Let_def)
  then have "st_month s' = st_month s + 1"
    using x [symmetric] by simp
  with c show "((p, s'), (p, s)) \<in> measure (\<lambda>(p, s). MAX_MONTHS - st_month s)"
    by auto
qed

text \<open>Lines 70-191: the state before the loop, the loop, the cap check and the result.\<close>

definition calculateSimulation :: "SimulationParams \<Rightarrow> SimulationResult" where
  "calculateSimulation p =
     (let s = simLoop p (initState p)
      in \<lparr> data = st_data s,
           totalInterest = st_totalInterest s,
           totalPaid = st_totalPaid s,
           months = st_month s,
           isInfinite = (if st_month s \<ge> MAX_MONTHS then True else st_isInfinite s) \<rparr>)"

subsection \<open>The reference recurrence of the specification\<close>



subsection \<open>Names for the parts of one month\<close>

text \<open>
  The quantities that one pass of the loop computes from the state at its start, named so
  that the properties below can speak about them: the interest of line 102, the payment of
  lines 105-110, the balance of lines 124-127, the record of lines 137-146, the state after
  line 146, the runaway test of line 115 and the first test of line 163.
\<close>

definition monthInterest :: "SimulationParams \<Rightarrow> SimState \<Rightarrow> rat" where
  "monthInterest p s = of_int \<lfloor>st_balance s * (annualInterestRate p / 100 / 12)\<rfloor>"

definition monthPayment :: "SimulationParams \<Rightarrow> SimState \<Rightarrow> rat" where
  "monthPayment p s =
     (if st_balance s + monthInterest p s \<le> monthlyRepayment p
      then st_balance s + monthInterest p s else monthlyRepayment p)"

definition monthBalance :: "SimulationParams \<Rightarrow> SimState \<Rightarrow> rat" where
  "monthBalance p s =
     (if st_balance s - (monthPayment p s - monthInterest p s) + monthlyNewCharge p < 0 then 0
      else st_balance s - (monthPayment p s - monthInterest p s) + monthlyNewCharge p)"

definition monthRecord :: "SimulationParams \<Rightarrow> SimState \<Rightarrow> MonthData" where
  "monthRecord p s =
     \<lparr> month = st_month s + 1,
       balance = monthBalance p s,
       principalPaid = monthPayment p s - monthInterest p s,
       interestPaid = monthInterest p s,
       MonthData.totalPaid = monthPayment p s,
       cumulativeInterest = st_totalInterest s + monthInterest p s,
       cumulativePrincipal = st_cumulativePrincipal s + (monthPayment p s - monthInterest p s),
       remainingInterest =
         calculateProjectedInterest (monthBalance p s) (monthlyRepayment p) (annualInterestRate p) \<rparr>"

definition monthState :: "SimulationParams \<Rightarrow> SimState \<Rightarrow> SimState" where
  "monthState p s =
     \<lparr> st_balance = monthBalance p s,
       st_totalInterest = st_totalInterest s + monthInterest p s,
       st_totalPaid = st_totalPaid s + monthPayment p s,
       st_cumulativePrincipal = st_cumulativePrincipal s + (monthPayment p s - monthInterest p s),
       st_data = st_data s @ [monthRecord p s],
       st_month = st_month s + 1,
       st_isInfinite = st_isInfinite s \<rparr>"

definition runaway :: "SimulationParams \<Rightarrow> SimState \<Rightarrow> bool" where
  "runaway p s \<longleftrightarrow> st_balance s > initialBalance p * 5 \<and> st_balance s > 1000000"

definition steady :: "SimulationParams \<Rightarrow> SimState \<Rightarrow> bool" where
  "steady p s \<longleftrightarrow> monthlyNewCharge p > 0 \<and> \<bar>monthBalance p s - st_balance s\<bar> \<le> 10"



section \<open>The double-precision model\<close>

subsection \<open>Double-precision arithmetic\<close>

text \<open>
  A double is a rational \<open>m \<times> 2\<^sup>g\<close> with \<open>\<bar>m\<bar> \<le> 2\<^sup>5\<^sup>3\<close> and \<open>g \<ge> - 1074\<close>. For \<open>x > 0\<close>,
  \<open>ilog2 x\<close> is the exponent \<open>e\<close> with \<open>2\<^sup>e \<le> x < 2\<^sup>e\<^sup>+\<^sup>1\<close>, computed from the bit lengths
  of numerator and denominator. \<open>roundEven\<close> rounds to the nearest integer, a tie to the
  even one. \<open>dbl x\<close> rounds \<open>x\<close> to the nearest multiple of the quantum \<open>2\<^sup>e\<^sup>-\<^sup>5\<^sup>2\<close> of its
  binade, ties to even; below \<open>2\<^sup>-\<^sup>1\<^sup>0\<^sup>2\<^sup>2\<close> the quantum stays \<open>2\<^sup>-\<^sup>1\<^sup>0\<^sup>7\<^sup>4\<close> (gradual underflow).
  This is the rounding of IEEE 754 binary64 in the default mode, without the overflow to
  an infinity.
\<close>

definition ilog2 :: "rat \<Rightarrow> int" where
  "ilog2 x = (case quotient_of x of (a, b) \<Rightarrow>
     let k = bitlen a - bitlen b in if 2 powi k \<le> x then k else k - 1)"

definition roundEven :: "rat \<Rightarrow> int" where
  "roundEven y =
     (let f = \<lfloor>y\<rfloor>; r = y - of_int f
      in if r < 1 / 2 then f else if 1 / 2 < r then f + 1 else if even f then f else f + 1)"

definition dbl :: "rat \<Rightarrow> rat" where
  "dbl x =
     (if x = 0 then 0
      else let e = max (ilog2 \<bar>x\<bar>) (- 1022); q = 2 powi (e - 52)
           in of_int (roundEven (x / q)) * q)"

text \<open>The four operations of the code: the exact result, rounded.\<close>

definition addD :: "rat \<Rightarrow> rat \<Rightarrow> rat" where
  "addD a b = dbl (a + b)"

definition subD :: "rat \<Rightarrow> rat \<Rightarrow> rat" where
  "subD a b = dbl (a - b)"

definition mulD :: "rat \<Rightarrow> rat \<Rightarrow> rat" where
  "mulD a b = dbl (a * b)"

definition divD :: "rat \<Rightarrow> rat \<Rightarrow> rat" where
  "divD a b = dbl (a / b)"

subsection \<open>\<open>calculateProjectedInterest\<close> in double precision\<close>

text \<open>
  Lines 36-68 again, each operation rounded: \<open>annualInterestRate / 100 / 12\<close> is two
  divisions, \<open>currentBal * monthlyRate\<close> a multiplication whose rounded result is floored.
\<close>

function projLoopD :: "rat \<Rightarrow> rat \<Rightarrow> nat \<Rightarrow> rat \<Rightarrow> rat \<Rightarrow> rat" where
  "projLoopD repayment monthlyRate i currentBal totalInt =
     (if i < MAX_PROJ_MONTHS then
        let interest = of_int \<lfloor>mulD currentBal monthlyRate\<rfloor>;
            payment = (if addD currentBal interest \<le> repayment
                       then addD currentBal interest else repayment);
            principal = subD payment interest;
            currentBal' = subD currentBal principal;
            totalInt' = addD totalInt interest
        in if currentBal' \<le> 0 then totalInt'
           else projLoopD repayment monthlyRate (i + 1) currentBal' totalInt'
      else totalInt)"
  by pat_completeness auto
termination
  by (relation "measure (\<lambda>(r, q, i, b, t). MAX_PROJ_MONTHS - i)") auto

definition calculateProjectedInterestD :: "rat \<Rightarrow> rat \<Rightarrow> rat \<Rightarrow> rat" where
  "calculateProjectedInterestD bal repayment rate =
     (if bal \<le> 0 then 0
      else projLoopD repayment (divD (divD rate 100) 12) 0 bal 0)"

subsection \<open>\<open>calculateSimulation\<close> in double precision\<close>


definition simStepD :: "SimulationParams \<Rightarrow> SimState \<Rightarrow> SimState \<times> bool" where
  "simStepD p s =
     (let month' = st_month s + 1;
          bal = st_balance s;
          monthlyRate = divD (divD (annualInterestRate p) 100) 12;
          interest = of_int \<lfloor>mulD bal monthlyRate\<rfloor>;
          payment = (if addD bal interest \<le> monthlyRepayment p
                     then addD bal interest else monthlyRepayment p);
          principal = subD payment interest
      in if bal > mulD (initialBalance p) 5 \<and> bal > 1000000 then
           (s\<lparr> st_month := month', st_isInfinite := True \<rparr>, True)
         else
           let prevBalance = bal;
               bal1 = addD (subD bal principal) (monthlyNewCharge p);
               bal' = (if bal1 < 0 then 0 else bal1);
               totalInterest' = addD (st_totalInterest s) interest;
               totalPaid' = addD (st_totalPaid s) payment;
               cumulativePrincipal' = addD (st_cumulativePrincipal s) principal;
               projectedInterest =
                 calculateProjectedInterestD bal' (monthlyRepayment p) (annualInterestRate p);
               s' = \<lparr> st_balance = bal',
                      st_totalInterest = totalInterest',
                      st_totalPaid = totalPaid',
                      st_cumulativePrincipal = cumulativePrincipal',
                      st_data = st_data s @
                        [\<lparr> month = month',
                           balance = bal',
                           principalPaid = principal,
                           interestPaid = interest,
                           MonthData.totalPaid = payment,
                           cumulativeInterest = totalInterest',
                           cumulativePrincipal = cumulativePrincipal',
                           remainingInterest = projectedInterest \<rparr>],
                      st_month = month',
                      st_isInfinite = st_isInfinite s \<rparr>
           in if bal' \<le> 0 then (s', True)
              else if bal' < monthlyRepayment p then (s', True)
              else if monthlyNewCharge p > 0 \<and> \<bar>subD bal' prevBalance\<bar> \<le> 10 then
                (if bal' \<le> mulD (monthlyNewCharge p) 1.5 then (s', True)
                 else if bal' > monthlyRepayment p then (s'\<lparr> st_isInfinite := True \<rparr>, True)
                 else (s', False))
              else (s', False))"

function simLoopD :: "SimulationParams \<Rightarrow> SimState \<Rightarrow> SimState" where
  "simLoopD p s =
     (if st_balance s > 0 \<and> st_month s < MAX_MONTHS then
        (case simStepD p s of
           (s', stop) \<Rightarrow> if stop then s' else simLoopD p s')
      else s)"
  by pat_completeness auto
termination
proof (relation "measure (\<lambda>(p, s). MAX_MONTHS - st_month s)")
  show "wf (measure (\<lambda>(p, s). MAX_MONTHS - st_month s))"
    by simp
next
  fix p :: SimulationParams and s s' :: SimState and stop :: bool
  assume c: "0 < st_balance s \<and> st_month s < MAX_MONTHS"
    and x: "(s', stop) = simStepD p s"
  have "st_month (fst (simStepD p s)) = st_month s + 1"
    by (simp add: simStepD_def Let_def)
  then have "st_month s' = st_month s + 1"
    using x [symmetric] by simp
  with c show "((p, s'), (p, s)) \<in> measure (\<lambda>(p, s). MAX_MONTHS - st_month s)"
    by auto
qed


subsection \<open>The recurrence of the estimator in double precision\<close>



subsection \<open>Names for the parts of one month in double precision\<close>

definition monthInterestD :: "SimulationParams \<Rightarrow> SimState \<Rightarrow> rat" where
  "monthInterestD p s =
     of_int \<lfloor>mulD (st_balance s) (divD (divD (annualInterestRate p) 100) 12)\<rfloor>"

definition monthPaymentD :: "SimulationParams \<Rightarrow> SimState \<Rightarrow> rat" where
  "monthPaymentD p s =
     (if addD (st_balance s) (monthInterestD p s) \<le> monthlyRepayment p
      then addD (st_balance s) (monthInterestD p s) else monthlyRepayment p)"

definition monthPrincipalD :: "SimulationParams \<Rightarrow> SimState \<Rightarrow> rat" where
  "monthPrincipalD p s = subD (monthPaymentD p s) (monthInterestD p s)"

definition monthBalanceD :: "SimulationParams \<Rightarrow> SimState \<Rightarrow> rat" where
  "monthBalanceD p s =
     (if addD (subD (st_balance s) (monthPrincipalD p s)) (monthlyNewCharge p) < 0 then 0
      else addD (subD (st_balance s) (monthPrincipalD p s)) (monthlyNewCharge p))"

definition monthRecordD :: "SimulationParams \<Rightarrow> SimState \<Rightarrow> MonthData" where
  "monthRecordD p s =
     \<lparr> month = st_month s + 1,
       balance = monthBalanceD p s,
       principalPaid = monthPrincipalD p s,
       interestPaid = monthInterestD p s,
       MonthData.totalPaid = monthPaymentD p s,
       cumulativeInterest = addD (st_totalInterest s) (monthInterestD p s),
       cumulativePrincipal = addD (st_cumulativePrincipal s) (monthPrincipalD p s),
       remainingInterest =
         calculateProjectedInterestD (monthBalanceD p s) (monthlyRepayment p)
           (annualInterestRate p) \<rparr>"

definition monthStateD :: "SimulationParams \<Rightarrow> SimState \<Rightarrow> SimState" where
  "monthStateD p s =
     \<lparr> st_balance = monthBalanceD p s,
       st_totalInterest = addD (st_totalInterest s) (monthInterestD p s),
       st_totalPaid = addD (st_totalPaid s) (monthPaymentD p s),
       st_cumulativePrincipal = addD (st_cumulativePrincipal s) (monthPrincipalD p s),
       st_data = st_data s @ [monthRecordD p s],
       st_month = st_month s + 1,
       st_isInfinite = st_isInfinite s \<rparr>"




section \<open>Properties\<close>

declare projLoop.simps [simp del] simLoop.simps [simp del]

subsection \<open>General facts about the two loops\<close>

lemma simStep_month: "st_month (fst (simStep p s)) = st_month s + 1"
  by (simp add: simStep_def Let_def)

text \<open>One pass of the loop, written with the names above.\<close>

lemma simStep_eq:
  "simStep p s =
     (if runaway p s then (s\<lparr> st_month := st_month s + 1, st_isInfinite := True \<rparr>, True)
      else if monthBalance p s \<le> 0 then (monthState p s, True)
      else if monthBalance p s < monthlyRepayment p then (monthState p s, True)
      else if steady p s then
        (if monthBalance p s \<le> monthlyNewCharge p * (3 / 2) then (monthState p s, True)
         else if monthBalance p s > monthlyRepayment p
           then ((monthState p s)\<lparr> st_isInfinite := True \<rparr>, True)
         else (monthState p s, False))
      else (monthState p s, False))"
  unfolding simStep_def runaway_def steady_def monthState_def monthRecord_def monthBalance_def
    monthPayment_def monthInterest_def Let_def
  by simp


lemma simStep_cases [consumes 1, case_names guard applied trap]:
  assumes "simStep p s = (s', stop)"
  obtains "runaway p s" and "s' = s\<lparr> st_month := st_month s + 1, st_isInfinite := True \<rparr>"
      and "stop"
  | "\<not> runaway p s" and "s' = monthState p s"
      and "stop \<longleftrightarrow> monthBalance p s \<le> 0 \<or> monthBalance p s < monthlyRepayment p \<or>
             (steady p s \<and> monthBalance p s \<le> monthlyNewCharge p * (3 / 2))"
  | "\<not> runaway p s" and "s' = (monthState p s)\<lparr> st_isInfinite := True \<rparr>" and "stop"
      and "steady p s" and "monthlyRepayment p < monthBalance p s"
      and "\<not> monthBalance p s \<le> monthlyNewCharge p * (3 / 2)"
  using assms unfolding simStep_eq by (auto split: if_splits)

lemma monthState_simps [simp]:
  "st_balance (monthState p s) = monthBalance p s"
  "st_totalInterest (monthState p s) = st_totalInterest s + monthInterest p s"
  "st_totalPaid (monthState p s) = st_totalPaid s + monthPayment p s"
  "st_cumulativePrincipal (monthState p s) =
     st_cumulativePrincipal s + (monthPayment p s - monthInterest p s)"
  "st_data (monthState p s) = st_data s @ [monthRecord p s]"
  "st_month (monthState p s) = st_month s + 1"
  "st_isInfinite (monthState p s) = st_isInfinite s"
  by (simp_all add: monthState_def)

lemma monthRecord_simps [simp]:
  "month (monthRecord p s) = st_month s + 1"
  "balance (monthRecord p s) = monthBalance p s"
  "principalPaid (monthRecord p s) = monthPayment p s - monthInterest p s"
  "interestPaid (monthRecord p s) = monthInterest p s"
  "MonthData.totalPaid (monthRecord p s) = monthPayment p s"
  "cumulativeInterest (monthRecord p s) = st_totalInterest s + monthInterest p s"
  "cumulativePrincipal (monthRecord p s) =
     st_cumulativePrincipal s + (monthPayment p s - monthInterest p s)"
  "remainingInterest (monthRecord p s) =
     calculateProjectedInterest (monthBalance p s) (monthlyRepayment p) (annualInterestRate p)"
  by (simp_all add: monthRecord_def)

text \<open>
  The proof rule of the \<open>while\<close> loop: an invariant \<open>I\<close> that holds before the loop and
  is kept by every pass that stays in the loop, and a postcondition \<open>Q\<close> that holds after
  every pass that leaves by \<open>break\<close> and whenever the loop condition fails.
\<close>

lemma simLoop_rule:
  assumes init: "I s"
    and step: "\<And>s s' stop. \<lbrakk>I s; 0 < st_balance s; st_month s < MAX_MONTHS;
                 simStep p s = (s', stop)\<rbrakk> \<Longrightarrow> if stop then Q s' else I s'"
    and exit: "\<And>s. \<lbrakk>I s; \<not> (0 < st_balance s \<and> st_month s < MAX_MONTHS)\<rbrakk> \<Longrightarrow> Q s"
  shows "Q (simLoop p s)"
  using init
proof (induction "MAX_MONTHS - st_month s" arbitrary: s rule: less_induct)
  case less
  show ?case
  proof (cases "0 < st_balance s \<and> st_month s < MAX_MONTHS")
    case False
    then have "simLoop p s = s" by (subst simLoop.simps) (simp only: if_False)
    with exit [OF less.prems False] show ?thesis by simp
  next
    case True
    obtain s' stop where st: "simStep p s = (s', stop)" by (cases "simStep p s")
    have m: "st_month s' = st_month s + 1" using simStep_month [of p s] st by simp
    have r: "if stop then Q s' else I s'" using step [OF less.prems _ _ st] True by simp
    have eq: "simLoop p s = (if stop then s' else simLoop p s')"
      using True st by (subst simLoop.simps) simp
    show ?thesis
    proof (cases stop)
      case True
      with r eq show ?thesis by simp
    next
      case False
      with r have i': "I s'" by simp
      have "MAX_MONTHS - st_month s' < MAX_MONTHS - st_month s" using m True by auto
      then have "Q (simLoop p s')" using i' by (rule less.hyps)
      with eq False show ?thesis by simp
    qed
  qed
qed

text \<open>
  The loop only appends to the trajectory: the records that are there when the loop is
  entered stay where they are. So the record of month 0 is the one pushed before the loop,
  and, when the initial balance is positive, the record of month 1 is the one the first
  pass computes.
\<close>

lemma simStep_data_prefix:
  assumes "simStep p s = (s', stop)"
  shows "length (st_data s) \<le> length (st_data s') \<and>
         (\<forall>i < length (st_data s). st_data s' ! i = st_data s ! i)"
  using assms by (cases rule: simStep_cases) (auto simp: nth_append)

lemma simLoop_data_prefix:
  "length (st_data s) \<le> length (st_data (simLoop p s)) \<and>
   (\<forall>i < length (st_data s). st_data (simLoop p s) ! i = st_data s ! i)"
proof -
  let ?I = "\<lambda>t. length (st_data s) \<le> length (st_data t) \<and>
               (\<forall>i < length (st_data s). st_data t ! i = st_data s ! i)"
  show ?thesis
  proof (rule simLoop_rule [where I = ?I and Q = ?I])
    show "?I s" by simp
  next
    fix t t' stop
    assume inv: "?I t" and st: "simStep p t = (t', stop)"
    from simStep_data_prefix [OF st] inv have "?I t'" by auto
    then show "if stop then ?I t' else ?I t'" by simp
  next
    fix t
    assume "?I t"
    then show "?I t" .
  qed
qed

lemma first_month_record:
  assumes pos: "0 < initialBalance p"
  shows "1 < length (data (calculateSimulation p)) \<and>
         data (calculateSimulation p) ! 1 = monthRecord p (initState p)"
proof -
  let ?s = "initState p"
  have nr: "\<not> runaway p ?s" using pos by (simp add: runaway_def initState_def)
  have c: "0 < st_balance ?s \<and> st_month ?s < MAX_MONTHS"
    using pos by (simp add: initState_def MAX_MONTHS_def)
  obtain s' stop where st: "simStep p ?s = (s', stop)" by (cases "simStep p ?s")
  have d: "st_data s' = st_data ?s @ [monthRecord p ?s]"
    using st nr by (cases rule: simStep_cases) auto
  have l: "length (st_data ?s) = 1" by (simp add: initState_def)
  have eq: "simLoop p ?s = (if stop then s' else simLoop p s')"
    using c st by (subst simLoop.simps) simp
  have "1 < length (st_data (simLoop p ?s)) \<and> st_data (simLoop p ?s) ! 1 = monthRecord p ?s"
  proof (cases stop)
    case True
    with eq d l show ?thesis by (simp add: nth_append)
  next
    case False
    have "length (st_data s') = 2" "st_data s' ! 1 = monthRecord p ?s"
      using d l by (simp_all add: nth_append)
    with simLoop_data_prefix [of s' p] eq False show ?thesis by auto
  qed
  then show ?thesis by (simp add: calculateSimulation_def Let_def)
qed

lemma first_month_fields:
  "st_balance (initState p) = initialBalance p"
  "st_month (initState p) = 0"
  "st_totalInterest (initState p) = 0"
  "st_cumulativePrincipal (initState p) = 0"
  by (simp_all add: initState_def)






lemma data_calculateSimulation:
  "data (calculateSimulation p) = st_data (simLoop p (initState p))"
  by (simp add: calculateSimulation_def Let_def)

subsection \<open>The estimator\<close>

text \<open>
  Claim C9. For every balance less than or equal to zero, and every monthly repayment and
  annual rate, \<open>calculateProjectedInterest\<close> returns 0 without entering its loop.
\<close>

theorem estimate_nonpositive_balance:
  "bal \<le> 0 \<Longrightarrow> calculateProjectedInterest bal repayment rate = 0"
  by (simp add: calculateProjectedInterest_def)

theorem estimate_nonpositive_balance_witness:
  "(- 5::rat) \<le> 0 \<and> calculateProjectedInterest (- 5) 1000 18 = 0"
  using estimate_nonpositive_balance [of "- 5" 1000 18] by simp

subsection \<open>The simulator\<close>

text \<open>
  Claim C8. For every \<open>SimulationParams\<close>, the trajectory returned by
  \<open>calculateSimulation\<close> is in increasing month order: its first record has month 0 and
  balance \<open>initialBalance\<close>, and the record at index \<open>i\<close> has month \<open>i\<close>, for every index.
\<close>

theorem trajectory_month_index:
  "let d = data (calculateSimulation p)
   in d \<noteq> [] \<and> month (d ! 0) = 0 \<and> balance (d ! 0) = initialBalance p \<and>
      (\<forall>i < length d. month (d ! i) = i)"
proof -
  let ?I = "\<lambda>s. length (st_data s) = st_month s + 1 \<and>
               balance (st_data s ! 0) = initialBalance p \<and>
               (\<forall>i < length (st_data s). month (st_data s ! i) = i)"
  let ?Q = "\<lambda>s. st_data s \<noteq> [] \<and>
               balance (st_data s ! 0) = initialBalance p \<and>
               (\<forall>i < length (st_data s). month (st_data s ! i) = i)"
  have "?Q (simLoop p (initState p))"
  proof (rule simLoop_rule [where I = ?I and Q = ?Q])
    show "?I (initState p)" by (simp add: initState_def)
  next
    fix s s' stop
    assume inv: "?I s" and st: "simStep p s = (s', stop)"
    from st show "if stop then ?Q s' else ?I s'"
    proof (cases rule: simStep_cases)
      case guard
      with inv show ?thesis by auto
    next
      case applied
      with inv show ?thesis by (auto simp: nth_append)
    next
      case trap
      with inv show ?thesis by (auto simp: nth_append)
    qed
  next
    fix s
    assume "?I s"
    then show "?Q s" by auto
  qed
  then show ?thesis
    by (auto simp: calculateSimulation_def Let_def)
qed

theorem trajectory_month_index_witness:
  "2 < length (data (calculateSimulation
       \<lparr> initialBalance = 10000, monthlyNewCharge = 0, monthlyRepayment = 5000,
         annualInterestRate = 0 \<rparr>)) \<and>
   month (data (calculateSimulation
       \<lparr> initialBalance = 10000, monthlyNewCharge = 0, monthlyRepayment = 5000,
         annualInterestRate = 0 \<rparr>) ! 2) = 2"
proof -
  let ?p = "\<lparr> initialBalance = 10000, monthlyNewCharge = 0, monthlyRepayment = 5000,
              annualInterestRate = 0 \<rparr>"
  have len: "length (data (calculateSimulation ?p)) = 3" by code_simp
  show ?thesis using trajectory_month_index [of ?p] len by (simp add: Let_def)
qed

text \<open>
  Claim C6. For \<open>initialBalance = 300000\<close>, \<open>monthlyNewCharge = 0\<close>,
  \<open>monthlyRepayment = 5000\<close> and \<open>annualInterestRate = 18\<close> the trajectory has a record of
  month 1, with \<open>interestPaid = floor(300000 \<times> 18 / 100 / 12) = 4500\<close>,
  \<open>principalPaid = 500\<close> and \<open>balance = 299500\<close>.
\<close>

theorem scenario_A_first_month:
  "1 < length (data (calculateSimulation
       \<lparr> initialBalance = 300000, monthlyNewCharge = 0, monthlyRepayment = 5000,
         annualInterestRate = 18 \<rparr>)) \<and>
   month (data (calculateSimulation
       \<lparr> initialBalance = 300000, monthlyNewCharge = 0, monthlyRepayment = 5000,
         annualInterestRate = 18 \<rparr>) ! 1) = 1 \<and>
   interestPaid (data (calculateSimulation
       \<lparr> initialBalance = 300000, monthlyNewCharge = 0, monthlyRepayment = 5000,
         annualInterestRate = 18 \<rparr>) ! 1) = of_int \<lfloor>300000 * 18 / 100 / 12 :: rat\<rfloor> \<and>
   interestPaid (data (calculateSimulation
       \<lparr> initialBalance = 300000, monthlyNewCharge = 0, monthlyRepayment = 5000,
         annualInterestRate = 18 \<rparr>) ! 1) = 4500 \<and>
   principalPaid (data (calculateSimulation
       \<lparr> initialBalance = 300000, monthlyNewCharge = 0, monthlyRepayment = 5000,
         annualInterestRate = 18 \<rparr>) ! 1) = 500 \<and>
   balance (data (calculateSimulation
       \<lparr> initialBalance = 300000, monthlyNewCharge = 0, monthlyRepayment = 5000,
         annualInterestRate = 18 \<rparr>) ! 1) = 299500"
proof -
  let ?p = "\<lparr> initialBalance = 300000, monthlyNewCharge = 0, monthlyRepayment = 5000,
              annualInterestRate = 18 \<rparr>"
  have "0 < initialBalance ?p" by simp
  from first_month_record [OF this] show ?thesis
    by (simp add: first_month_fields monthBalance_def monthPayment_def monthInterest_def)
qed



subsection \<open>Termination classes of the simulator\<close>




text \<open>
  Claim C3 as stated fails. With \<open>initialBalance = 10000\<close>, \<open>monthlyNewCharge = 0\<close>,
  \<open>monthlyRepayment = 5000\<close> and rate 0 the balance after month 1 is exactly the monthly
  repayment; the test of line 157 is strict, so the run goes on to month 2 and returns
  \<open>months = 2\<close> with three records.
\<close>

theorem balance_equal_repayment_counterexample:
  "1 < length (data (calculateSimulation
       \<lparr> initialBalance = 10000, monthlyNewCharge = 0, monthlyRepayment = 5000,
         annualInterestRate = 0 \<rparr>)) \<and>
   balance (data (calculateSimulation
       \<lparr> initialBalance = 10000, monthlyNewCharge = 0, monthlyRepayment = 5000,
         annualInterestRate = 0 \<rparr>) ! 1) =
     monthlyRepayment \<lparr> initialBalance = 10000, monthlyNewCharge = 0, monthlyRepayment = 5000,
         annualInterestRate = 0 \<rparr> \<and>
   months (calculateSimulation
       \<lparr> initialBalance = 10000, monthlyNewCharge = 0, monthlyRepayment = 5000,
         annualInterestRate = 0 \<rparr>) = 2 \<and>
   length (data (calculateSimulation
       \<lparr> initialBalance = 10000, monthlyNewCharge = 0, monthlyRepayment = 5000,
         annualInterestRate = 0 \<rparr>)) = 3"
  by code_simp

text \<open>
  Claim C3, amended. For every \<open>SimulationParams\<close>, if the trajectory has a record of some
  month \<open>m \<ge> 1\<close> (no earlier termination has fired) whose balance is strictly less than
  \<open>monthlyRepayment\<close>, the run ends in that month: \<open>months = m\<close> and the record of month
  \<open>m\<close> is the last one.
\<close>

theorem below_repayment_stops_same_month:
  "let r = calculateSimulation p; d = data r
   in \<forall>m. 1 \<le> m \<and> m < length d \<and> balance (d ! m) < monthlyRepayment p \<longrightarrow>
        months r = m \<and> length d = m + 1"
proof -
  let ?Q = "\<lambda>s. \<forall>m. 1 \<le> m \<and> m < length (st_data s) \<and>
                   balance (st_data s ! m) < monthlyRepayment p \<longrightarrow>
                   st_month s = m \<and> length (st_data s) = m + 1"
  let ?I = "\<lambda>s. length (st_data s) = st_month s + 1 \<and>
               (\<forall>m. 1 \<le> m \<and> m < length (st_data s) \<longrightarrow>
                    \<not> balance (st_data s ! m) < monthlyRepayment p)"
  have "?Q (simLoop p (initState p))"
  proof (rule simLoop_rule [where I = ?I and Q = ?Q])
    show "?I (initState p)" by (simp add: initState_def)
  next
    fix s s' stop
    assume inv: "?I s" and st: "simStep p s = (s', stop)"
    from inv have len: "length (st_data s) = st_month s + 1"
      and old: "\<And>m. 1 \<le> m \<Longrightarrow> m < length (st_data s) \<Longrightarrow>
                  \<not> balance (st_data s ! m) < monthlyRepayment p"
      by simp_all
    have app: "(st_data s @ [monthRecord p s]) ! m =
        (if m < length (st_data s) then st_data s ! m else monthRecord p s)"
      if "m < length (st_data s) + 1" for m
      using that by (auto simp: nth_append)
    from st show "if stop then ?Q s' else ?I s'"
    proof (cases rule: simStep_cases)
      case guard
      with old show ?thesis by auto
    next
      case applied
      show ?thesis
      proof (cases stop)
        case True
        have "st_month s' = m \<and> length (st_data s') = m + 1"
          if m: "1 \<le> m" "m < length (st_data s')"
            "balance (st_data s' ! m) < monthlyRepayment p" for m
        proof (cases "m < length (st_data s)")
          case True
          with m old [of m] applied(2) show ?thesis by (simp add: nth_append)
        next
          case False
          with m applied(2) len show ?thesis by simp
        qed
        with True show ?thesis by simp
      next
        case False
        with applied have nb: "\<not> monthBalance p s < monthlyRepayment p" by simp
        have "\<not> balance (st_data s' ! m) < monthlyRepayment p"
          if m: "1 \<le> m" "m < length (st_data s')" for m
          using m old [of m] nb applied(2) by (cases "m < length (st_data s)") (simp_all add: nth_append)
        with False applied(2) len show ?thesis by simp
      qed
    next
      case trap
      have "\<not> balance (st_data s' ! m) < monthlyRepayment p"
        if m: "1 \<le> m" "m < length (st_data s')" for m
        using m old [of m] trap by (cases "m < length (st_data s)") (simp_all add: nth_append)
      with trap(3) show ?thesis by auto
    qed
  next
    fix s
    assume "?I s"
    then show "?Q s" by blast
  qed
  then show ?thesis
    unfolding Let_def data_calculateSimulation by (simp add: calculateSimulation_def Let_def)
qed

theorem below_repayment_stops_same_month_witness:
  "(1::nat) \<le> 1 \<and>
   1 < length (data (calculateSimulation
       \<lparr> initialBalance = 10000, monthlyNewCharge = 0, monthlyRepayment = 6000,
         annualInterestRate = 0 \<rparr>)) \<and>
   balance (data (calculateSimulation
       \<lparr> initialBalance = 10000, monthlyNewCharge = 0, monthlyRepayment = 6000,
         annualInterestRate = 0 \<rparr>) ! 1) <
     monthlyRepayment \<lparr> initialBalance = 10000, monthlyNewCharge = 0, monthlyRepayment = 6000,
         annualInterestRate = 0 \<rparr> \<and>
   months (calculateSimulation
       \<lparr> initialBalance = 10000, monthlyNewCharge = 0, monthlyRepayment = 6000,
         annualInterestRate = 0 \<rparr>) = 1 \<and>
   length (data (calculateSimulation
       \<lparr> initialBalance = 10000, monthlyNewCharge = 0, monthlyRepayment = 6000,
         annualInterestRate = 0 \<rparr>)) = 1 + 1"
proof -
  let ?p = "\<lparr> initialBalance = 10000, monthlyNewCharge = 0, monthlyRepayment = 6000,
              annualInterestRate = 0 \<rparr>"
  have "0 < initialBalance ?p" by simp
  from first_month_record [OF this]
  have h: "(1::nat) \<le> 1" "1 < length (data (calculateSimulation ?p))"
    "balance (data (calculateSimulation ?p) ! 1) < monthlyRepayment ?p"
    by (simp_all add: first_month_fields monthBalance_def monthPayment_def monthInterest_def)
  note t = below_repayment_stops_same_month [of ?p, unfolded Let_def]
  from t h have "months (calculateSimulation ?p) = 1 \<and>
      length (data (calculateSimulation ?p)) = 1 + 1" by blast
  with h show ?thesis by blast
qed

subsection \<open>Running totals\<close>




section \<open>Properties that depend on rounding\<close>

declare projLoopD.simps [simp del] simLoopD.simps [simp del]

subsection \<open>Facts about the rounding\<close>

text \<open>Some values of \<open>dbl\<close>: 0.1, 0.3 and two ties above \<open>2\<^sup>5\<^sup>3\<close>.\<close>

lemma dbl_examples:
  "dbl (1 / 10) = 3602879701896397 / 36028797018963968"
  "dbl (3 / 10) = 5404319552844595 / 18014398509481984"
  "dbl 9007199254740993 = 9007199254740992"
  "dbl 9007199254740995 = 9007199254740996"
  by code_simp+

lemma roundEven_of_int [simp]: "roundEven (of_int z) = z"
  by (simp add: roundEven_def)

lemma roundEven_nonneg: "0 \<le> y \<Longrightarrow> 0 \<le> roundEven y"
  by (auto simp: roundEven_def Let_def)


lemma roundEven_bound: "\<bar>y\<bar> \<le> of_int n \<Longrightarrow> \<bar>roundEven y\<bar> \<le> n"
proof -
  assume a: "\<bar>y\<bar> \<le> of_int n"
  then have u: "y \<le> of_int n" and l: "of_int (- n) \<le> y" by (simp_all add: abs_le_iff)
  have le: "roundEven y \<le> n"
  proof (cases "y = of_int n")
    case True then show ?thesis by simp
  next
    case False
    with u have "y < of_int n" by simp
    then have "\<lfloor>y\<rfloor> < n" by (simp add: floor_less_iff)
    moreover have "roundEven y \<le> \<lfloor>y\<rfloor> + 1" by (simp add: roundEven_def Let_def)
    ultimately show ?thesis by linarith
  qed
  have "- n \<le> \<lfloor>y\<rfloor>" using l by (simp add: le_floor_iff)
  moreover have "\<lfloor>y\<rfloor> \<le> roundEven y" by (simp add: roundEven_def Let_def)
  ultimately show ?thesis using le by linarith
qed

lemma ilog2_bounds:
  assumes x: "0 < x"
  shows "2 powi ilog2 x \<le> x \<and> x < 2 powi (ilog2 x + 1)"
proof -
  obtain a b where q: "quotient_of x = (a, b)" by (cases "quotient_of x")
  have b: "0 < b" using q by (rule quotient_of_denom_pos)
  have xe: "x = of_int a / of_int b" using q by (rule quotient_of_div)
  have a: "0 < a" using x b unfolding xe by (simp add: zero_less_divide_iff)
  define k where "k = bitlen a - bitlen b"
  have la: "1 \<le> bitlen a" and lb: "1 \<le> bitlen b"
    using a b bitlen_eq_zero_iff [of a] bitlen_eq_zero_iff [of b] bitlen_nonneg [of a]
      bitlen_nonneg [of b] by linarith+
  have pw: "(2::rat) powi n = of_int (2 ^ nat n)" if "0 \<le> n" for n
    using that by (simp add: power_int_nonneg_exp)
  have a_hi: "(of_int a :: rat) < 2 powi bitlen a"
    using bitlen_bounds [OF a] la unfolding pw [of "bitlen a", OF bitlen_nonneg]
    by (simp only: of_int_less_iff)
  have a_lo: "(2::rat) powi (bitlen a - 1) \<le> of_int a"
    using bitlen_bounds [OF a] la pw [of "bitlen a - 1"] by (simp only: of_int_le_iff)
  have b_hi: "(of_int b :: rat) < 2 powi bitlen b"
    using bitlen_bounds [OF b] lb unfolding pw [of "bitlen b", OF bitlen_nonneg]
    by (simp only: of_int_less_iff)
  have b_lo: "(2::rat) powi (bitlen b - 1) \<le> of_int b"
    using bitlen_bounds [OF b] lb pw [of "bitlen b - 1"] by (simp only: of_int_le_iff)
  have hi: "x < 2 powi (k + 1)"
  proof -
    have "x < 2 powi bitlen a / 2 powi (bitlen b - 1)"
      unfolding xe using a a_hi b_lo by (intro frac_less) simp_all
    also have "\<dots> = 2 powi (k + 1)"
      by (simp add: k_def power_int_diff [symmetric] algebra_simps)
    finally show ?thesis .
  qed
  have lo: "2 powi (k - 1) < x"
  proof -
    have "2 powi (bitlen a - 1) / 2 powi bitlen b < x"
      unfolding xe using b a_lo b_hi by (intro frac_less2) simp_all
    moreover have "(2::rat) powi (bitlen a - 1) / 2 powi bitlen b = 2 powi (k - 1)"
      by (simp add: k_def power_int_diff [symmetric] algebra_simps)
    ultimately show ?thesis by simp
  qed
  have il: "ilog2 x = (if 2 powi k \<le> x then k else k - 1)"
    by (simp add: ilog2_def q k_def Let_def)
  show ?thesis
  proof (cases "2 powi k \<le> x")
    case True
    with il hi show ?thesis by simp
  next
    case False
    with il lo show ?thesis by simp
  qed
qed

lemma ilog2_less:
  assumes "0 < x" and "x < 2 powi m"
  shows "ilog2 x < m"
proof (rule ccontr)
  assume "\<not> ilog2 x < m"
  then have "m \<le> ilog2 x" by simp
  then have "(2::rat) powi m \<le> 2 powi ilog2 x" by (intro power_int_increasing) simp_all
  with ilog2_bounds [OF assms(1)] assms(2) show False by linarith
qed

lemma ilog2_ge:
  assumes "0 < x" and "2 powi m \<le> x"
  shows "m \<le> ilog2 x"
proof (rule ccontr)
  assume "\<not> m \<le> ilog2 x"
  then have "ilog2 x + 1 \<le> m" by simp
  then have "(2::rat) powi (ilog2 x + 1) \<le> 2 powi m" by (intro power_int_increasing) simp_all
  with ilog2_bounds [OF assms(1)] assms(2) show False by linarith
qed


lemma dbl_zero [simp]: "dbl 0 = 0"
  by (simp add: dbl_def)

lemma dbl_nonneg: "0 \<le> x \<Longrightarrow> 0 \<le> dbl x"
  by (auto simp: dbl_def Let_def intro!: mult_nonneg_nonneg roundEven_nonneg divide_nonneg_nonneg)


text \<open>Values on the grid of quantum \<open>2 powi g\<close> below \<open>2 powi (g + 53)\<close> are fixed by dbl.\<close>

lemma dbl_grid:
  assumes g: "- 1074 \<le> g" and n: "\<bar>n\<bar> \<le> 2 ^ 53"
  shows "dbl (of_int n * 2 powi g) = of_int n * 2 powi g"
proof (cases "n = 0")
  case True
  then show ?thesis by simp
next
  case False
  let ?x = "rat_of_int n * 2 powi g"
  have x0: "?x \<noteq> 0" using False by simp
  have ax: "\<bar>?x\<bar> = of_int \<bar>n\<bar> * 2 powi g" by (simp add: abs_mult)
  have pos: "0 < \<bar>?x\<bar>" using x0 by simp
  define e where "e = max (ilog2 \<bar>?x\<bar>) (- 1022)"
  have "rat_of_int \<bar>n\<bar> \<le> rat_of_int (2 ^ 53)" using n by (simp only: of_int_le_iff)
  then have n': "rat_of_int \<bar>n\<bar> \<le> 2 ^ 53" by simp
  have "\<bar>?x\<bar> \<le> 2 ^ 53 * 2 powi g"
    unfolding ax using n' by (intro mult_right_mono) simp_all
  also have "\<dots> = 2 powi (g + 53)" by (simp add: power_int_add)
  finally have le: "\<bar>?x\<bar> \<le> 2 powi (g + 53)" .
  show ?thesis
  proof (cases "\<bar>?x\<bar> = 2 powi (g + 53)")
    case True
    have "g + 53 \<le> ilog2 \<bar>?x\<bar>" using pos True by (intro ilog2_ge) simp_all
    moreover have "ilog2 \<bar>?x\<bar> < g + 54"
      using pos True by (intro ilog2_less) (simp_all add: power_int_strict_increasing)
    ultimately have il: "ilog2 \<bar>?x\<bar> = g + 53" by simp
    with g have e: "e = g + 53" by (simp add: e_def)
    have an: "\<bar>n\<bar> = 2 ^ 53"
    proof -
      from True ax have "rat_of_int \<bar>n\<bar> * 2 powi g = 2 ^ 53 * 2 powi g"
        by (simp add: power_int_add)
      then have "rat_of_int \<bar>n\<bar> = rat_of_int (2 ^ 53)" by simp
      then show ?thesis by (simp only: of_int_eq_iff)
    qed
    then obtain m where m: "n = 2 * m" by (cases "0 \<le> n") (auto simp: abs_if intro: that [of "2 ^ 52"] that [of "- (2 ^ 52)"])
    have q: "?x / 2 powi (e - 52) = of_int m"
      by (simp add: e m power_int_add power_int_diff field_simps)
    have "dbl ?x = of_int (roundEven (?x / 2 powi (e - 52))) * 2 powi (e - 52)"
      using x0 by (simp add: dbl_def e_def Let_def)
    also have "\<dots> = of_int m * 2 powi (e - 52)" by (simp only: q roundEven_of_int)
    also have "\<dots> = ?x" by (simp add: e m power_int_add power_int_diff field_simps)
    finally show ?thesis .
  next
    case False
    with le have "\<bar>?x\<bar> < 2 powi (g + 53)" by simp
    with pos have "ilog2 \<bar>?x\<bar> < g + 53" by (rule ilog2_less)
    with g have e: "e - 52 \<le> g" by (simp add: e_def)
    define j where "j = nat (g - (e - 52))"
    have ge: "g = (e - 52) + int j" using e by (simp add: j_def)
    have q: "?x / 2 powi (e - 52) = of_int (n * 2 ^ j)"
      by (simp add: ge power_int_add)
    have "dbl ?x = of_int (roundEven (?x / 2 powi (e - 52))) * 2 powi (e - 52)"
      using x0 by (simp add: dbl_def e_def Let_def)
    also have "\<dots> = of_int (n * 2 ^ j) * 2 powi (e - 52)" by (simp only: q roundEven_of_int)
    also have "\<dots> = ?x" by (simp add: ge power_int_add)
    finally show ?thesis .
  qed
qed

lemma dbl_idem [simp]: "dbl (dbl x) = dbl x"
proof (cases "x = 0")
  case True
  then show ?thesis by simp
next
  case False
  then have pos: "0 < \<bar>x\<bar>" by simp
  define e where "e = max (ilog2 \<bar>x\<bar>) (- 1022)"
  define n where "n = roundEven (x / 2 powi (e - 52))"
  have d: "dbl x = of_int n * 2 powi (e - 52)"
    using False by (simp add: dbl_def e_def n_def Let_def)
  have "\<bar>x\<bar> < 2 powi (ilog2 \<bar>x\<bar> + 1)" using ilog2_bounds [OF pos] by simp
  also have "\<dots> \<le> 2 powi (e + 1)" by (intro power_int_increasing) (simp_all add: e_def)
  finally have "\<bar>x\<bar> / 2 powi (e - 52) < 2 powi (e + 1) / 2 powi (e - 52)"
    by (intro divide_strict_right_mono) simp_all
  also have "\<dots> = 2 ^ 53" by (simp add: power_int_diff [symmetric])
  finally have "\<bar>x / 2 powi (e - 52)\<bar> \<le> of_int (2 ^ 53)" by (simp add: abs_divide)
  then have "\<bar>n\<bar> \<le> 2 ^ 53" unfolding n_def by (rule roundEven_bound)
  moreover have "- 1074 \<le> e - 52" by (simp add: e_def)
  ultimately show ?thesis unfolding d by (intro dbl_grid)
qed

lemma dbl_of_int: "\<bar>n\<bar> \<le> 2 ^ 53 \<Longrightarrow> dbl (of_int n) = of_int n"
  using dbl_grid [of 0 n] by simp

text \<open>The smallest subnormal is a double; half of it is a tie and rounds to zero.\<close>

lemma dbl_smallest: "dbl (2 powi (- 1074)) = 2 powi (- 1074)"
  using dbl_grid [of "- 1074" 1] by simp

lemma dbl_underflow: "dbl (2 powi (- 1075)) = 0"
proof -
  let ?x = "(2::rat) powi (- 1075)"
  have pos: "0 < ?x" by simp
  have "- 1075 \<le> ilog2 ?x" using pos by (rule ilog2_ge) simp
  moreover have "ilog2 ?x < - 1074"
    using pos by (rule ilog2_less) (rule power_int_strict_increasing, simp_all)
  ultimately have il: "ilog2 ?x = - 1075" by simp
  have q: "?x / 2 powi (- 1022 - 52) = 1 / 2"
  proof -
    have "?x / 2 powi (- 1074) = 2 powi (- 1075 - (- 1074))"
      by (rule power_int_diff [symmetric]) simp
    then show ?thesis by simp
  qed
  have r: "roundEven (1 / 2) = 0" by code_simp
  have "?x \<noteq> 0" by simp
  then have "dbl ?x = of_int (roundEven (?x / 2 powi (- 1022 - 52))) * 2 powi (- 1022 - 52)"
    unfolding dbl_def Let_def using il by (simp only: abs_of_pos [OF pos] if_False max_def) simp
  then show ?thesis unfolding q r by simp
qed

subsection \<open>General facts about the loop of the double-precision simulator\<close>




lemma monthStateD_simps [simp]:
  "st_balance (monthStateD p s) = monthBalanceD p s"
  "st_totalInterest (monthStateD p s) = addD (st_totalInterest s) (monthInterestD p s)"
  "st_totalPaid (monthStateD p s) = addD (st_totalPaid s) (monthPaymentD p s)"
  "st_cumulativePrincipal (monthStateD p s) =
     addD (st_cumulativePrincipal s) (monthPrincipalD p s)"
  "st_data (monthStateD p s) = st_data s @ [monthRecordD p s]"
  "st_month (monthStateD p s) = st_month s + 1"
  "st_isInfinite (monthStateD p s) = st_isInfinite s"
  by (simp_all add: monthStateD_def)

lemma monthRecordD_simps [simp]:
  "month (monthRecordD p s) = st_month s + 1"
  "balance (monthRecordD p s) = monthBalanceD p s"
  "principalPaid (monthRecordD p s) = monthPrincipalD p s"
  "interestPaid (monthRecordD p s) = monthInterestD p s"
  "MonthData.totalPaid (monthRecordD p s) = monthPaymentD p s"
  "cumulativeInterest (monthRecordD p s) = addD (st_totalInterest s) (monthInterestD p s)"
  "cumulativePrincipal (monthRecordD p s) =
     addD (st_cumulativePrincipal s) (monthPrincipalD p s)"
  by (simp_all add: monthRecordD_def)















subsection \<open>The estimator in double precision\<close>




subsection \<open>The accounting identity in double precision\<close>




subsection \<open>Degenerate inputs in double precision\<close>




end
